theory Spec2Isabelle
  imports Main "HOL-Library.AList"
begin

section \<open>Strings and objects of the host language\<close>

text \<open>
  The plugin is JavaScript. A string is modelled as a list of characters; the model covers
  sources made of ASCII characters (\<open>toUpperCase\<close>, \<open>trim\<close> and the regular expressions
  of the source act on characters outside ASCII in ways a byte cannot express, and such
  characters are treated here as plain symbols that are neither letters nor white space).
  An object is an association list in insertion order: assigning to a new property appends
  it, assigning to an existing one keeps its place, which is what \<open>JSON.stringify\<close>
  later observes.
\<close>

type_synonym 'v obj = "(string \<times> 'v) list"

definition get :: "'v obj \<Rightarrow> string \<Rightarrow> 'v option" where
  "get ob key = map_of ob key"

definition put :: "string \<Rightarrow> 'v \<Rightarrow> 'v obj \<Rightarrow> 'v obj" where
  "put key v ob = AList.update key v ob"

definition hasOwnProperty :: "'v obj \<Rightarrow> string \<Rightarrow> bool" where
  "hasOwnProperty ob key = (get ob key \<noteq> None)"

text \<open>\<open>!x\<close> for a property that holds a string or is undefined.\<close>

definition falsy :: "string option \<Rightarrow> bool" where
  "falsy v = (case v of None \<Rightarrow> True | Some s \<Rightarrow> s = [])"

text \<open>The text a template literal interpolates for such a property.\<close>

definition shown :: "string option \<Rightarrow> string" where
  "shown v = (case v of None \<Rightarrow> ''undefined'' | Some s \<Rightarrow> s)"

definition code :: "char \<Rightarrow> nat" where
  "code c = of_char c"

definition is_upper :: "char \<Rightarrow> bool" where
  "is_upper c = (65 \<le> code c \<and> code c \<le> 90)"

definition is_lower :: "char \<Rightarrow> bool" where
  "is_lower c = (97 \<le> code c \<and> code c \<le> 122)"

definition is_digit :: "char \<Rightarrow> bool" where
  "is_digit c = (48 \<le> code c \<and> code c \<le> 57)"

definition char_upper :: "char \<Rightarrow> char" where
  "char_upper c = (if is_lower c then char_of (code c - 32) else c)"

definition toUpperCase :: "string \<Rightarrow> string" where
  "toUpperCase s = map char_upper s"

text \<open>White space as \<open>trim\<close> and \<open>parseInt\<close> see it: tab, line feed, vertical tab, form
  feed, carriage return, space.\<close>

definition is_space :: "char \<Rightarrow> bool" where
  "is_space c = (code c \<in> {9, 10, 11, 12, 13, 32})"

definition trim :: "string \<Rightarrow> string" where
  "trim s = rev (dropWhile is_space (rev (dropWhile is_space s)))"

definition startsWith :: "string \<Rightarrow> string \<Rightarrow> bool" where
  "startsWith s p = (take (length p) s = p)"

definition str_includes :: "string \<Rightarrow> char \<Rightarrow> bool" where
  "str_includes s c = (c \<in> set s)"

fun push :: "char \<Rightarrow> string list \<Rightarrow> string list" where
  "push c [] = [[c]]"
| "push c (x # xs) = (c # x) # xs"

text \<open>\<open>s.split(sep)\<close> for a separator string that is not empty: the occurrences of
  \<open>sep\<close> are found from the left, without overlap, and the pieces between them are
  returned; the empty string gives one empty piece.\<close>

function str_split :: "string \<Rightarrow> string \<Rightarrow> string list" where
  "str_split [] sep = [[]]"
| "str_split (c # cs) sep =
     (if sep \<noteq> [] \<and> startsWith (c # cs) sep
      then [] # str_split (drop (length sep) (c # cs)) sep
      else push c (str_split cs sep))"
  by pat_completeness auto
termination
  by (relation "measure (\<lambda>(s, sep). length s)") auto

text \<open>\<open>s.split(/[;\n]+/)\<close>: a separator is a maximal run of delimiter characters.\<close>

function split_runs :: "(char \<Rightarrow> bool) \<Rightarrow> string \<Rightarrow> string list" where
  "split_runs d [] = [[]]"
| "split_runs d (c # cs) =
     (if d c then [] # split_runs d (dropWhile d cs)
      else push c (split_runs d cs))"
  by pat_completeness auto
termination
  by (relation "measure (\<lambda>(d, s). length s)") (auto simp: length_dropWhile_le less_Suc_eq_le)

fun join :: "string list \<Rightarrow> string \<Rightarrow> string" where
  "join [] sep = []"
| "join [x] sep = x"
| "join (x # y # ys) sep = x @ sep @ join (y # ys) sep"

text \<open>\<open>.filter(Boolean)\<close> on an array of strings drops the empty ones.\<close>

definition filter_Boolean :: "string list \<Rightarrow> string list" where
  "filter_Boolean xs = filter (\<lambda>s. s \<noteq> []) xs"

definition newline :: char where
  "newline = CHR 0x0A"

text \<open>
  \<open>parseInt(value)\<close> with no radix: leading white space is skipped, one sign is read, a
  prefix \<open>0x\<close> or \<open>0X\<close> selects radix 16, and the longest run of digits of the radix is
  the number; no digit gives \<open>NaN\<close>, which is \<open>None\<close> here. The result is the exact
  integer (the source's number is a double, which rounds integers beyond \<open>2^53\<close>).
\<close>

definition digit_val :: "char \<Rightarrow> nat" where
  "digit_val c =
     (if is_digit c then code c - 48
      else if is_lower c then code c - 87
      else code c - 55)"

definition is_radix_digit :: "nat \<Rightarrow> char \<Rightarrow> bool" where
  "is_radix_digit r c = ((is_digit c \<or> is_lower c \<or> is_upper c) \<and> digit_val c < r)"

definition radix_value :: "nat \<Rightarrow> string \<Rightarrow> nat" where
  "radix_value r z = foldl (\<lambda>acc c. acc * r + digit_val c) 0 z"

definition parseInt :: "string \<Rightarrow> int option" where
  "parseInt inputString =
     (let S = dropWhile is_space inputString;
          sign = (if startsWith S ''-'' then - 1 else (1::int));
          S1 = (if startsWith S ''+'' \<or> startsWith S ''-'' then tl S else S);
          hex = (startsWith S1 ''0x'' \<or> startsWith S1 ''0X'');
          R = (if hex then 16 else 10);
          S2 = (if hex then drop 2 S1 else S1);
          Z = takeWhile (is_radix_digit R) S2
      in if Z = [] then None else Some (sign * int (radix_value R Z)))"

section \<open>The DSL parser\<close>

text \<open>
  Every failure of the parser is a \<open>SyntaxError\<close> with a message. The model has one
  constructor for each place that throws, with the values the message interpolates:
  "Too many segments", "Field 'key' must have a value", "Field 'key' must have an integer
  value", "Unrecognised field: key", "Unexpected character c in ctx", "Duplicate style
  identifiers detected", "Duplicate color identifiers detected", and the two messages of
  the boundaries (right against left, top against bottom).
\<close>

datatype error =
    TooManySegments
  | MissingFieldValue string
  | InvalidFieldType string
  | UnrecognisedField string
  | BannedCharacter char string
  | DuplicateStyle string string
  | DuplicateColor string string
  | RightNotGreater "int option" "int option"
  | TopNotGreater "int option" "int option"

definition FIELD_DEFAULTS :: "int obj" where
  "FIELD_DEFAULTS =
     [(''width'', 600), (''height'', 400), (''left'', - 10), (''right'', 10),
      (''bottom'', - 7), (''top'', 7)]"

definition EquationStyle :: "string list" where
  "EquationStyle = [''SOLID'', ''DASHED'', ''DOTTED'', ''POINT'', ''OPEN'', ''CROSS'']"

definition EquationColor :: "string list" where
  "EquationColor = [''RED'', ''BLUE'', ''GREEN'', ''PURPLE'', ''ORANGE'', ''BLACK'']"

text \<open>The character class \<open>[0-9a-zA-Z]\<close>.\<close>

definition alnum :: "char \<Rightarrow> bool" where
  "alnum c = (is_digit c \<or> is_lower c \<or> is_upper c)"

definition isHexColor :: "string \<Rightarrow> bool" where
  "isHexColor v =
     (if startsWith v ''#''
      then (let rest = drop 1 v in rest \<noteq> [] \<and> list_all alnum rest)
      else False)"

text \<open>The object a \<open>Dsl\<close> is; the property \<open>fields\<close> is \<open>dsl_fields\<close> here.\<close>

record dsl =
  equations :: "string obj list"
  dsl_fields :: "int obj"
  hash :: string

text \<open>\<open>Object.assign(target, source)\<close>; an undefined source is skipped.\<close>

definition assign :: "'v obj \<Rightarrow> 'v obj option \<Rightarrow> 'v obj" where
  "assign target source =
     (case source of None \<Rightarrow> target
      | Some src \<Rightarrow> fold (\<lambda>(k, v) t. put k v t) src target)"

text \<open>\<open>a >= b\<close> on numbers that may be undefined: a comparison with undefined is false.\<close>

definition ge_num :: "int option \<Rightarrow> int option \<Rightarrow> bool" where
  "ge_num a b = (case (a, b) of (Some x, Some y) \<Rightarrow> x \<ge> y | _ \<Rightarrow> False)"

definition assert_sanity :: "int obj \<Rightarrow> error option" where
  "assert_sanity fs =
     (if ge_num (get fs ''left'') (get fs ''right'')
      then Some (RightNotGreater (get fs ''right'') (get fs ''left''))
      else if ge_num (get fs ''bottom'') (get fs ''top'')
      then Some (TopNotGreater (get fs ''top'') (get fs ''bottom''))
      else None)"

definition bannedChars :: "char list" where
  "bannedChars = [CHR 0x22, CHR 0x27, CHR 0x60]"

fun first_banned :: "char list \<Rightarrow> string \<Rightarrow> char option" where
  "first_banned [] v = None"
| "first_banned (c # cs) v = (if str_includes v c then Some c else first_banned cs v)"

definition assert_notbanned :: "string \<Rightarrow> string \<Rightarrow> error option" where
  "assert_notbanned v ctx =
     (case first_banned bannedChars v of
        None \<Rightarrow> None
      | Some c \<Rightarrow> Some (BannedCharacter c ctx))"

subsection \<open>Serialisation and fingerprint\<close>

text \<open>
  \<open>JSON.stringify(this)\<close>, at the moment the constructor calls it: the object has the
  properties \<open>equations\<close> and \<open>fields\<close>, in this order, and not yet \<open>hash\<close>. Properties
  are written in insertion order. The digest \<open>crypto.createHash("sha256") ... digest("hex")\<close>
  is the platform's; it is the parameter \<open>H\<close> of the constructor and of the parser.
\<close>

definition hex_digit :: "nat \<Rightarrow> char" where
  "hex_digit n = (if n < 10 then char_of (48 + n) else char_of (87 + n))"

definition escape_char :: "char \<Rightarrow> string" where
  "escape_char c =
     (if c = CHR 0x22 then [CHR 0x5C, CHR 0x22]
      else if c = CHR 0x5C then [CHR 0x5C, CHR 0x5C]
      else if c = CHR 0x08 then [CHR 0x5C, CHR ''b'']
      else if c = CHR 0x0C then [CHR 0x5C, CHR ''f'']
      else if c = CHR 0x0A then [CHR 0x5C, CHR ''n'']
      else if c = CHR 0x0D then [CHR 0x5C, CHR ''r'']
      else if c = CHR 0x09 then [CHR 0x5C, CHR ''t'']
      else if code c < 32
      then [CHR 0x5C, CHR ''u'', CHR ''0'', CHR ''0'', hex_digit (code c div 16), hex_digit (code c mod 16)]
      else [c])"

definition quote :: "string \<Rightarrow> string" where
  "quote s = CHR 0x22 # concat (map escape_char s) @ [CHR 0x22]"

fun digits :: "nat \<Rightarrow> string" where
  "digits n = (if n < 10 then [char_of (48 + n)] else digits (n div 10) @ [char_of (48 + n mod 10)])"

declare digits.simps [simp del]

text \<open>An integer is written in decimal (the source's number is a double, which
  \<open>JSON.stringify\<close> writes with an exponent from \<open>10^21\<close> on).\<close>

definition number :: "int \<Rightarrow> string" where
  "number i = (if i < 0 then CHR ''-'' # digits (nat (- i)) else digits (nat i))"

definition stringify_object :: "('v \<Rightarrow> string) \<Rightarrow> 'v obj \<Rightarrow> string" where
  "stringify_object val ob =
     ''{'' @ join (map (\<lambda>(k, v). quote k @ '':'' @ val v) ob) '','' @ ''}''"

definition stringify_array :: "('a \<Rightarrow> string) \<Rightarrow> 'a list \<Rightarrow> string" where
  "stringify_array val xs = ''['' @ join (map val xs) '','' @ '']''"

definition JSON_stringify :: "string obj list \<Rightarrow> int obj \<Rightarrow> string" where
  "JSON_stringify eqs fs =
     ''{'' @ quote ''equations'' @ '':'' @ stringify_array (stringify_object quote) eqs
       @ '','' @ quote ''fields'' @ '':'' @ stringify_object number fs @ ''}''"

text \<open>The constructor \<open>new Dsl(equations, fields)\<close>.\<close>

definition Dsl :: "(string \<Rightarrow> string) \<Rightarrow> string obj list \<Rightarrow> int obj option \<Rightarrow> error + dsl" where
  "Dsl H eqs fs =
     (let this_fields = assign (assign [] (Some FIELD_DEFAULTS)) fs
      in case assert_sanity this_fields of
           Some e \<Rightarrow> Inl e
         | None \<Rightarrow>
             Inr \<lparr>equations = eqs, dsl_fields = this_fields,
                  hash = H (JSON_stringify eqs this_fields)\<rparr>)"

subsection \<open>The settings block\<close>

text \<open>Every default is a number, so of the \<open>typeof\<close> switch only the number case exists.\<close>

text \<open>\<open>const [key, ...value] = setting.split("="); return [key, value.join("=")]\<close>.
  A split gives at least one piece, so the second case is never taken.\<close>

definition key_value :: "string \<Rightarrow> string \<times> string" where
  "key_value setting =
     (case str_split setting ''='' of
        key # v \<Rightarrow> (key, join v ''='')
      | [] \<Rightarrow> (''undefined'', []))"

definition field_step :: "int obj \<Rightarrow> string \<times> string \<Rightarrow> error + int obj" where
  "field_step settings kv =
     (case kv of (key, v) \<Rightarrow>
        if hasOwnProperty FIELD_DEFAULTS key then
          if v = [] then Inl (MissingFieldValue key)
          else (case parseInt v of
                  None \<Rightarrow> Inl (InvalidFieldType key)
                | Some s \<Rightarrow> Inr (put key s settings))
        else Inl (UnrecognisedField key))"

fun reduce_fields :: "int obj \<Rightarrow> (string \<times> string) list \<Rightarrow> error + int obj" where
  "reduce_fields settings [] = Inr settings"
| "reduce_fields settings (kv # kvs) =
     (case field_step settings kv of
        Inl e \<Rightarrow> Inl e
      | Inr settings' \<Rightarrow> reduce_fields settings' kvs)"

definition settings_entries :: "string \<Rightarrow> (string \<times> string) list" where
  "settings_entries block =
     map key_value
       (filter_Boolean (map trim (split_runs (\<lambda>c. c = CHR '';'' \<or> c = newline) block)))"

definition parse_fields :: "string \<Rightarrow> error + int obj" where
  "parse_fields block = reduce_fields [] (settings_entries block)"

subsection \<open>Equation lines\<close>

definition process_segment :: "string obj \<Rightarrow> string \<Rightarrow> error + string obj" where
  "process_segment equation segment =
     (let segmentUpperCase = toUpperCase segment in
      if segmentUpperCase \<in> set EquationStyle then
        (if falsy (get equation ''style'')
         then Inr (put ''style'' segmentUpperCase equation)
         else Inl (DuplicateStyle (shown (get equation ''style'')) segmentUpperCase))
      else if segmentUpperCase \<in> set EquationColor \<or> isHexColor segment then
        (if falsy (get equation ''color'')
         then (if isHexColor segment
               then Inr (put ''color'' segment equation)
               else Inr (put ''color'' segmentUpperCase equation))
         else Inl (DuplicateColor (shown (get equation ''color'')) segmentUpperCase))
      else
        (case assert_notbanned segment ''graph configuration'' of
           Some e \<Rightarrow> Inl e
         | None \<Rightarrow>
             (let equation1 =
                    (if falsy (get equation ''restriction'')
                     then put ''restriction'' [] equation else equation)
              in Inr (put ''restriction''
                        (shown (get equation1 ''restriction'') @ ''{'' @ segment @ ''}'')
                        equation1))))"

fun process_segments :: "string obj \<Rightarrow> string list \<Rightarrow> error + string obj" where
  "process_segments equation [] = Inr equation"
| "process_segments equation (segment # segments) =
     (case process_segment equation segment of
        Inl e \<Rightarrow> Inl e
      | Inr equation' \<Rightarrow> process_segments equation' segments)"

text \<open>One line of the body. The first piece of the split is the expression; a split gives
  at least one piece, so the second case is never taken.\<close>

definition process_equation :: "string \<Rightarrow> error + string obj" where
  "process_equation eq =
     (case str_split eq ''|'' of
        first # segments \<Rightarrow>
          (case assert_notbanned first ''graph equation'' of
             Some e \<Rightarrow> Inl e
           | None \<Rightarrow> process_segments [(''equation'', first)] segments)
      | [] \<Rightarrow> process_segments [] [])"

fun process_equations :: "string list \<Rightarrow> error + string obj list" where
  "process_equations [] = Inr []"
| "process_equations (eq # eqs) =
     (case process_equation eq of
        Inl e \<Rightarrow> Inl e
      | Inr equation \<Rightarrow>
          (case process_equations eqs of
             Inl e \<Rightarrow> Inl e
           | Inr rest \<Rightarrow> Inr (equation # rest)))"

definition body_lines :: "string \<Rightarrow> string list" where
  "body_lines body = filter_Boolean (str_split body [newline])"

subsection \<open>\<open>Dsl.parse\<close>\<close>

text \<open>
  The \<open>switch\<close> on the number of segments leaves \<open>equations\<close> undefined in its default
  case only; \<open>fields\<close> is undefined in the cases 0 and 1. An error of the settings block
  is raised inside the switch, before any equation is looked at.
\<close>

fun parse_switch :: "string list \<Rightarrow> error + (string list option \<times> int obj option)" where
  "parse_switch [] = Inr (Some [], None)"
| "parse_switch [s0] = Inr (Some (body_lines s0), None)"
| "parse_switch [s0, s1] =
     (case parse_fields s0 of
        Inl e \<Rightarrow> Inl e
      | Inr fs \<Rightarrow> Inr (Some (body_lines s1), Some fs))"
| "parse_switch (s0 # s1 # s2 # rest) = Inr (None, Some [])"

definition parse_split :: "(string \<Rightarrow> string) \<Rightarrow> string list \<Rightarrow> error + dsl" where
  "parse_split H split =
     (case parse_switch split of
        Inl e \<Rightarrow> Inl e
      | Inr (None, fs) \<Rightarrow> Inl TooManySegments
      | Inr (Some eqs, fs) \<Rightarrow>
          (case process_equations eqs of
             Inl e \<Rightarrow> Inl e
           | Inr processed \<Rightarrow> Dsl H processed fs))"

definition parse :: "(string \<Rightarrow> string) \<Rightarrow> string \<Rightarrow> error + dsl" where
  "parse H source = parse_split H (str_split source ''---'')"

section \<open>The classification of modifier tokens, in the specification's words\<close>

text \<open>
  The specification classifies a modifier, without regard to letter case, in a fixed
  precedence: a style name, else a colour name or a hex colour, else a restriction
  fragment. These definitions follow its words; the theorems below compare them with
  \<open>process_segment\<close>, which follows the source.
\<close>

datatype token = StyleToken string | ColorToken string | RestrictionFragment string

definition is_style_token :: "string \<Rightarrow> bool" where
  "is_style_token s = (toUpperCase s \<in> set EquationStyle)"

definition is_color_token :: "string \<Rightarrow> bool" where
  "is_color_token s =
     (\<not> is_style_token s \<and> (toUpperCase s \<in> set EquationColor \<or> isHexColor s))"


definition classify :: "string \<Rightarrow> token" where
  "classify s =
     (if is_style_token s then StyleToken (toUpperCase s)
      else if is_color_token s then ColorToken (if isHexColor s then s else toUpperCase s)
      else RestrictionFragment s)"

definition restriction_text :: "string obj \<Rightarrow> string" where
  "restriction_text equation = (case get equation ''restriction'' of None \<Rightarrow> [] | Some r \<Rightarrow> r)"

definition add_restriction :: "string obj \<Rightarrow> string \<Rightarrow> string obj" where
  "add_restriction equation fragment =
     put ''restriction'' (restriction_text equation @ ''{'' @ fragment @ ''}'') equation"

definition apply_token :: "string obj \<Rightarrow> string \<Rightarrow> token \<Rightarrow> error + string obj" where
  "apply_token equation segment t =
     (case t of
        StyleToken v \<Rightarrow>
          (if falsy (get equation ''style'') then Inr (put ''style'' v equation)
           else Inl (DuplicateStyle (shown (get equation ''style'')) v))
      | ColorToken v \<Rightarrow>
          (if falsy (get equation ''color'') then Inr (put ''color'' v equation)
           else Inl (DuplicateColor (shown (get equation ''color'')) (toUpperCase segment)))
      | RestrictionFragment f \<Rightarrow>
          (case assert_notbanned f ''graph configuration'' of
             Some e \<Rightarrow> Inl e
           | None \<Rightarrow> Inr (add_restriction equation f)))"

definition wrap :: "string \<Rightarrow> string" where
  "wrap fragment = ''{'' @ fragment @ ''}''"



section \<open>The content of a document, in the specification's words\<close>










section \<open>The renderer\<close>

text \<open>
  \<open>Renderer.render\<close> acts on the plugin, the window, the file system and the document.
  The model passes them as one state: the memory cache \<open>plugin.graph_cache\<close>, the files
  and directories that exist, the message listeners of the window, the children of every
  element, the promises that were resolved and the notices shown. A request is named by a
  number, which tells its promise and its listener from those of other requests. The
  functions of the \<open>path\<close> and \<open>os\<close> modules are parameters. What the settings hold is
  taken not to change while a request waits, and reading or writing a file is taken to
  complete at once; a write fails on the paths listed as unwritable.
\<close>

datatype CacheLocation = Memory | Filesystem

record cache_settings =
  enabled :: bool
  location :: CacheLocation
  directory :: "string option"

record settings =
  version :: string
  debounce :: int
  cache :: cache_settings

text \<open>\<open>if (settings.cache)\<close> tests an object, and an object is truthy.\<close>

definition truthy_object :: "cache_settings \<Rightarrow> bool" where
  "truthy_object c = True"

record env =
  basePath :: string
  tmpdir :: string
  isAbsolute :: "string \<Rightarrow> bool"
  path_join :: "string \<Rightarrow> string \<Rightarrow> string"

datatype node = Img string | Iframe dsl | ErrorBox string

text \<open>A message event: its origin and the properties \<open>t\<close>, \<open>d\<close>, \<open>data\<close> and \<open>hash\<close>
  of its data.\<close>

record message =
  m_origin :: string
  m_t :: string
  m_d :: string
  m_data :: string
  m_hash :: string

text \<open>The closure \<open>handler\<close> of a request: the variables of \<open>render\<close> it refers to.\<close>

record handler =
  h_request :: nat
  h_hash :: string
  h_el :: string
  h_settings :: settings
  h_cache_dir :: string
  h_cache_target :: string

record world =
  graph_cache :: "string obj"
  files :: "string obj"
  dirs :: "string list"
  unwritable :: "string list"
  listeners :: "handler list"
  dom :: "node list obj"
  resolved :: "nat list"
  notices :: "string list"

definition children :: "world \<Rightarrow> string \<Rightarrow> node list" where
  "children w el = (case get (dom w) el of None \<Rightarrow> [] | Some ns \<Rightarrow> ns)"

definition appendChild :: "string \<Rightarrow> node \<Rightarrow> world \<Rightarrow> world" where
  "appendChild el n w = w\<lparr>dom := put el (children w el @ [n]) (dom w)\<rparr>"

definition empty_el :: "string \<Rightarrow> world \<Rightarrow> world" where
  "empty_el el w = w\<lparr>dom := put el [] (dom w)\<rparr>"

text \<open>\<open>renderError\<close> sets the inner HTML of the element to a box with the message.\<close>

definition renderError :: "string \<Rightarrow> string \<Rightarrow> world \<Rightarrow> world" where
  "renderError err el w = w\<lparr>dom := put el [ErrorBox err] (dom w)\<rparr>"

text \<open>Every call of \<open>render\<close> makes a closure of its own, so the listener it adds is
  never one the window has already.\<close>

definition addEventListener :: "handler \<Rightarrow> world \<Rightarrow> world" where
  "addEventListener h w = w\<lparr>listeners := listeners w @ [h]\<rparr>"

definition removeEventListener :: "handler \<Rightarrow> world \<Rightarrow> world" where
  "removeEventListener h w = w\<lparr>listeners := remove1 h (listeners w)\<rparr>"

definition resolve :: "nat \<Rightarrow> world \<Rightarrow> world" where
  "resolve r w = (if r \<in> set (resolved w) then w else w\<lparr>resolved := resolved w @ [r]\<rparr>)"

definition Notice :: "string \<Rightarrow> world \<Rightarrow> world" where
  "Notice text w = w\<lparr>notices := notices w @ [text]\<rparr>"

definition existsSync_file :: "world \<Rightarrow> string \<Rightarrow> bool" where
  "existsSync_file w p = (get (files w) p \<noteq> None)"

definition existsSync_dir :: "world \<Rightarrow> string \<Rightarrow> bool" where
  "existsSync_dir w p = (p \<in> set (dirs w))"

definition png_prefix :: string where
  "png_prefix = ''data:image/png;base64,''"

text \<open>\<open>data.replace(/^data:image\/png;base64,/, "")\<close>.\<close>

definition strip_png_prefix :: "string \<Rightarrow> string" where
  "strip_png_prefix v = (if startsWith v png_prefix then drop (length png_prefix) v else v)"

text \<open>\<open>fs.promises.writeFile\<close> with the handler of its failure, which shows a notice
  (the text of the error is not modelled; the path stands for it).\<close>

definition writeFile :: "string \<Rightarrow> string \<Rightarrow> world \<Rightarrow> world" where
  "writeFile p content w =
     (if p \<in> set (unwritable w)
      then Notice (''desmos-graph: unexpected error when trying to cache graph: '' @ p) w
      else w\<lparr>files := put p content (files w)\<rparr>)"

definition cache_dir_of :: "env \<Rightarrow> settings \<Rightarrow> string" where
  "cache_dir_of e st =
     (if \<not> falsy (directory (cache st))
      then (if isAbsolute e (shown (directory (cache st)))
            then shown (directory (cache st))
            else path_join e (basePath e) (shown (directory (cache st))))
      else tmpdir e)"

definition cache_target_of :: "env \<Rightarrow> settings \<Rightarrow> string \<Rightarrow> string" where
  "cache_target_of e st h = path_join e (cache_dir_of e st) (''desmos-graph-'' @ h @ ''.png'')"

definition make_handler :: "env \<Rightarrow> nat \<Rightarrow> dsl \<Rightarrow> settings \<Rightarrow> string \<Rightarrow> handler" where
  "make_handler e r args st el =
     \<lparr>h_request = r, h_hash = hash args, h_el = el, h_settings = st,
      h_cache_dir = cache_dir_of e st, h_cache_target = cache_target_of e st (hash args)\<rparr>"

text \<open>The body of \<open>handler\<close>, run on one message.\<close>

definition matches :: "handler \<Rightarrow> message \<Rightarrow> bool" where
  "matches h m =
     (m_origin m = ''app://obsidian.md'' \<and> m_t m = ''desmos-graph'' \<and> m_hash m = h_hash h)"

definition store_in_cache :: "handler \<Rightarrow> string \<Rightarrow> world \<Rightarrow> world" where
  "store_in_cache h v w =
     (if truthy_object (cache (h_settings h)) then
        (if location (cache (h_settings h)) = Memory
         then w\<lparr>graph_cache := put (h_hash h) v (graph_cache w)\<rparr>
         else if location (cache (h_settings h)) = Filesystem
         then (if existsSync_dir w (h_cache_dir h)
               then writeFile (h_cache_target h) (strip_png_prefix v) w
               else Notice (''desmos-graph: cache directory not found: '' @ [CHR 0x27]
                              @ h_cache_dir h @ [CHR 0x27]) w)
         else w)
      else w)"

definition handle :: "handler \<Rightarrow> message \<Rightarrow> world \<Rightarrow> world" where
  "handle h m w =
     (if matches h m then
        (let w1 = empty_el (h_el h) w;
             w2 = (if m_d m = ''error'' then renderError (m_data m) (h_el h) w1 else w1)
         in if m_d m = ''render''
            then store_in_cache h (m_data m)
                   (resolve (h_request h)
                      (appendChild (h_el h) (Img (m_data m))
                         (removeEventListener h w2)))
            else w2)
      else w)"

text \<open>A message posted to the window runs the listeners that are registered.\<close>

definition postMessage :: "message \<Rightarrow> world \<Rightarrow> world" where
  "postMessage m w =
     fold (\<lambda>h w'. if h \<in> set (listeners w') then handle h m w' else w') (listeners w) w"

text \<open>\<open>Renderer.render(args, settings, el, plugin)\<close>, for the request \<open>r\<close>. The frame
  that is added stands for the external renderer at work on \<open>args\<close>; the text of its
  document is not modelled.\<close>

definition render :: "env \<Rightarrow> nat \<Rightarrow> dsl \<Rightarrow> settings \<Rightarrow> string \<Rightarrow> world \<Rightarrow> world" where
  "render e r args st el w =
     (if truthy_object (cache st) \<and> location (cache st) = Memory
         \<and> get (graph_cache w) (hash args) \<noteq> None
      then appendChild el (Img (shown (get (graph_cache w) (hash args)))) w
      else if truthy_object (cache st) \<and> location (cache st) = Filesystem
         \<and> existsSync_file w (cache_target_of e st (hash args))
      then appendChild el
             (Img (png_prefix @ shown (get (files w) (cache_target_of e st (hash args))))) w
      else addEventListener (make_handler e r args st el) (appendChild el (Iframe args) w))"

text \<open>Whether the element of a request holds a frame of the external renderer.\<close>

definition renderer_invoked :: "world \<Rightarrow> string \<Rightarrow> bool" where
  "renderer_invoked w el = (\<exists>n \<in> set (children w el). case n of Iframe _ \<Rightarrow> True | _ \<Rightarrow> False)"

definition cache_hit :: "env \<Rightarrow> dsl \<Rightarrow> settings \<Rightarrow> world \<Rightarrow> bool" where
  "cache_hit e args st w =
     (location (cache st) = Memory \<and> get (graph_cache w) (hash args) \<noteq> None
      \<or> location (cache st) = Filesystem
          \<and> existsSync_file w (cache_target_of e st (hash args)))"

text \<open>\<open>DEFAULT_SETTINGS_STATIC\<close> with the version of the manifest.\<close>

definition DEFAULT_SETTINGS :: "string \<Rightarrow> settings" where
  "DEFAULT_SETTINGS v =
     \<lparr>version = v, debounce = 500,
      cache = \<lparr>enabled = True, location = Memory, directory = None\<rparr>\<rparr>"

subsection \<open>Values for the examples\<close>

definition example_join :: "string \<Rightarrow> string \<Rightarrow> string" where
  "example_join a b = a @ ''/'' @ b"

definition example_absolute :: "string \<Rightarrow> bool" where
  "example_absolute p = startsWith p ''/''"

definition example_env :: env where
  "example_env =
     \<lparr>basePath = ''/vault'', tmpdir = ''/tmp'', isAbsolute = example_absolute,
      path_join = example_join\<rparr>"

definition example_graph :: dsl where
  "example_graph =
     \<lparr>equations = [[(''equation'', ''y=x'')]], dsl_fields = FIELD_DEFAULTS, hash = ''c0ffee''\<rparr>"

definition example_image :: string where
  "example_image = ''data:image/png;base64,iVBORw0KGgo=''"

text \<open>The user has switched caching off.\<close>

definition caching_off :: settings where
  "caching_off =
     \<lparr>version = ''0.3.0'', debounce = 500,
      cache = \<lparr>enabled = False, location = Memory, directory = None\<rparr>\<rparr>"

definition caching_off_files :: settings where
  "caching_off_files =
     \<lparr>version = ''0.3.0'', debounce = 500,
      cache = \<lparr>enabled = False, location = Filesystem, directory = Some ''cache''\<rparr>\<rparr>"

definition cold_world :: world where
  "cold_world =
     \<lparr>graph_cache = [], files = [], dirs = [''/tmp'', ''/vault/cache''], unwritable = [],
      listeners = [], dom = [], resolved = [], notices = []\<rparr>"

definition warm_world :: world where
  "warm_world = cold_world\<lparr>graph_cache := [(''c0ffee'', example_image)]\<rparr>"


definition render_message :: message where
  "render_message =
     \<lparr>m_origin = ''app://obsidian.md'', m_t = ''desmos-graph'', m_d = ''render'',
      m_data = example_image, m_hash = ''c0ffee''\<rparr>"

definition error_message :: message where
  "error_message =
     \<lparr>m_origin = ''app://obsidian.md'', m_t = ''desmos-graph'', m_d = ''error'',
      m_data = ''Too many variables'', m_hash = ''c0ffee''\<rparr>"

section \<open>Properties of the parser\<close>

subsection \<open>Objects and the loop over the modifiers\<close>

lemma get_put: "get (put k v ob) k' = (if k' = k then Some v else get ob k')"
  by (simp add: get_def put_def update_conv')

lemma put_put: "put k v (put k w ob) = put k v ob"
  by (simp add: put_def)

lemma process_segment_classify: "process_segment equation s = apply_token equation s (classify s)"
proof -
  have r: "put ''restriction'' (shown (get (if falsy (get equation ''restriction'')
                     then put ''restriction'' [] equation else equation) ''restriction'') @ ''{'' @ s @ ''}'')
             (if falsy (get equation ''restriction'')
                     then put ''restriction'' [] equation else equation) = add_restriction equation s"
    by (auto simp: add_restriction_def restriction_text_def falsy_def shown_def get_put put_put split: option.splits)
  show ?thesis
    unfolding process_segment_def apply_token_def classify_def Let_def is_color_token_def is_style_token_def r
    by (simp split: option.splits)
qed

lemma process_segments_append:
  "process_segments eq0 (xs @ ys) =
     (case process_segments eq0 xs of Inl e \<Rightarrow> Inl e | Inr eq1 \<Rightarrow> process_segments eq1 ys)"
  by (induction xs arbitrary: eq0) (auto split: sum.splits)

lemma style_token_nonempty: "is_style_token s \<Longrightarrow> toUpperCase s \<noteq> []"
  by (auto simp: is_style_token_def EquationStyle_def)

lemma color_token_nonempty:
  "is_color_token s \<Longrightarrow> (if isHexColor s then s else toUpperCase s) \<noteq> []"
  by (auto simp: is_color_token_def EquationColor_def isHexColor_def startsWith_def)

lemma step_style:
  assumes "process_segment eq0 s = Inr eq1"
  shows "is_style_token s \<Longrightarrow> falsy (get eq0 ''style'') \<and> get eq1 ''style'' = Some (toUpperCase s)"
    and "\<not> is_style_token s \<Longrightarrow> get eq1 ''style'' = get eq0 ''style''"
  using assms
  by (auto simp: process_segment_classify apply_token_def classify_def get_put add_restriction_def
      split: if_splits option.splits)

lemma step_color:
  assumes "process_segment eq0 s = Inr eq1"
  shows "is_color_token s \<Longrightarrow> falsy (get eq0 ''color'') \<and>
           get eq1 ''color'' = Some (if isHexColor s then s else toUpperCase s)"
    and "\<not> is_color_token s \<Longrightarrow> get eq1 ''color'' = get eq0 ''color''"
  using assms
  by (auto simp: process_segment_classify apply_token_def classify_def get_put add_restriction_def
      is_color_token_def split: if_splits option.splits)




lemma segments_style_set:
  "process_segments eq0 segs = Inr eq1 \<Longrightarrow> \<not> falsy (get eq0 ''style'') \<Longrightarrow>
     filter is_style_token segs = [] \<and> get eq1 ''style'' = get eq0 ''style''"
proof (induction segs arbitrary: eq0)
  case Nil
  then show ?case by simp
next
  case (Cons s segs)
  then obtain eq' where st: "process_segment eq0 s = Inr eq'" and rest: "process_segments eq' segs = Inr eq1"
    by (auto split: sum.splits)
  from st Cons.prems(2) have ns: "\<not> is_style_token s" using step_style(1) by blast
  with st have "get eq' ''style'' = get eq0 ''style''" using step_style(2) by blast
  with Cons.IH[OF rest] Cons.prems(2) ns show ?case by simp
qed

lemma segments_style:
  "process_segments eq0 segs = Inr eq1 \<Longrightarrow> falsy (get eq0 ''style'') \<Longrightarrow>
     (case filter is_style_token segs of
        [] \<Rightarrow> get eq1 ''style'' = get eq0 ''style''
      | s # others \<Rightarrow> others = [] \<and> get eq1 ''style'' = Some (toUpperCase s))"
proof (induction segs arbitrary: eq0)
  case Nil
  then show ?case by simp
next
  case (Cons s segs)
  then obtain eq' where st: "process_segment eq0 s = Inr eq'" and rest: "process_segments eq' segs = Inr eq1"
    by (auto split: sum.splits)
  show ?case
  proof (cases "is_style_token s")
    case True
    with st have g: "get eq' ''style'' = Some (toUpperCase s)" using step_style(1) by blast
    with True have "\<not> falsy (get eq' ''style'')" by (simp add: falsy_def style_token_nonempty)
    from segments_style_set[OF rest this] g True show ?thesis by simp
  next
    case False
    with st have g: "get eq' ''style'' = get eq0 ''style''" using step_style(2) by blast
    with Cons.IH[OF rest] Cons.prems(2) False show ?thesis by (auto split: list.splits)
  qed
qed


lemma segments_color_set:
  "process_segments eq0 segs = Inr eq1 \<Longrightarrow> \<not> falsy (get eq0 ''color'') \<Longrightarrow>
     filter is_color_token segs = [] \<and> get eq1 ''color'' = get eq0 ''color''"
proof (induction segs arbitrary: eq0)
  case Nil
  then show ?case by simp
next
  case (Cons s segs)
  then obtain eq' where st: "process_segment eq0 s = Inr eq'" and rest: "process_segments eq' segs = Inr eq1"
    by (auto split: sum.splits)
  from st Cons.prems(2) have ns: "\<not> is_color_token s" using step_color(1) by blast
  with st have "get eq' ''color'' = get eq0 ''color''" using step_color(2) by blast
  with Cons.IH[OF rest] Cons.prems(2) ns show ?case by simp
qed

lemma segments_color:
  "process_segments eq0 segs = Inr eq1 \<Longrightarrow> falsy (get eq0 ''color'') \<Longrightarrow>
     (case filter is_color_token segs of
        [] \<Rightarrow> get eq1 ''color'' = get eq0 ''color''
      | s # others \<Rightarrow> others = [] \<and>
          get eq1 ''color'' = Some (if isHexColor s then s else toUpperCase s))"
proof (induction segs arbitrary: eq0)
  case Nil
  then show ?case by simp
next
  case (Cons s segs)
  then obtain eq' where st: "process_segment eq0 s = Inr eq'" and rest: "process_segments eq' segs = Inr eq1"
    by (auto split: sum.splits)
  show ?case
  proof (cases "is_color_token s")
    case True
    with st have g: "get eq' ''color'' = Some (if isHexColor s then s else toUpperCase s)"
      using step_color(1) by blast
    with True have "\<not> falsy (get eq' ''color'')"
      using color_token_nonempty[of s] by (simp add: falsy_def)
    from segments_color_set[OF rest this] g True show ?thesis by simp
  next
    case False
    with st have g: "get eq' ''color'' = get eq0 ''color''" using step_color(2) by blast
    with Cons.IH[OF rest] Cons.prems(2) False show ?thesis by (auto split: list.splits)
  qed
qed



lemma falsy_fresh: "k \<noteq> ''equation'' \<Longrightarrow> falsy (get [(''equation'', first)] k)"
  by (simp add: falsy_def get_def)

lemma duplicate_style_step:
  assumes "process_segments eq0 pre = Inr eq1" and "\<exists>t \<in> set pre. is_style_token t"
    and "is_style_token s"
  shows "process_segments eq0 (pre @ s # post)
           = Inl (DuplicateStyle (shown (get eq1 ''style'')) (toUpperCase s))"
proof -
  have "\<not> falsy (get eq1 ''style'')"
  proof (cases "falsy (get eq0 ''style'')")
    case True
    from assms(2) obtain t others where "filter is_style_token pre = t # others"
      by (cases "filter is_style_token pre") (auto simp: filter_empty_conv)
    moreover then have "is_style_token t" by (metis filter_eq_ConsD)
    ultimately show ?thesis using segments_style[OF assms(1) True]
      by (simp add: falsy_def style_token_nonempty)
  next
    case False
    with segments_style_set[OF assms(1)] show ?thesis by simp
  qed
  then have "process_segment eq1 s = Inl (DuplicateStyle (shown (get eq1 ''style'')) (toUpperCase s))"
    using assms(3) by (simp add: process_segment_classify classify_def apply_token_def)
  with assms(1) show ?thesis by (simp add: process_segments_append)
qed

lemma duplicate_color_step:
  assumes "process_segments eq0 pre = Inr eq1" and "\<exists>t \<in> set pre. is_color_token t"
    and "is_color_token s"
  shows "process_segments eq0 (pre @ s # post)
           = Inl (DuplicateColor (shown (get eq1 ''color'')) (toUpperCase s))"
proof -
  have "\<not> falsy (get eq1 ''color'')"
  proof (cases "falsy (get eq0 ''color'')")
    case True
    from assms(2) obtain t others where "filter is_color_token pre = t # others"
      by (cases "filter is_color_token pre") (auto simp: filter_empty_conv)
    moreover then have "is_color_token t" by (metis filter_eq_ConsD)
    ultimately show ?thesis using segments_color[OF assms(1) True] color_token_nonempty[of t]
      by (simp add: falsy_def)
  next
    case False
    with segments_color_set[OF assms(1)] show ?thesis by simp
  qed
  then have "process_segment eq1 s = Inl (DuplicateColor (shown (get eq1 ''color'')) (toUpperCase s))"
    using assms(3) by (simp add: process_segment_classify classify_def apply_token_def is_color_token_def)
  with assms(1) show ?thesis by (simp add: process_segments_append)
qed

lemma at_most_one_token:
  assumes "process_segments [(''equation'', first)] segs = Inr eq1"
  shows "length (filter is_style_token segs) \<le> 1 \<and> length (filter is_color_token segs) \<le> 1"
  using segments_style[OF assms falsy_fresh] segments_color[OF assms falsy_fresh]
  by (auto split: list.splits)

subsection \<open>Splitting and joining\<close>

declare str_split.simps [simp del]

lemma push_nonempty: "push c xs \<noteq> []"
  by (cases xs) auto

lemma str_split_nonempty: "str_split s sep \<noteq> []"
  by (cases s) (auto simp: str_split.simps push_nonempty)

lemma push_append: "xs \<noteq> [] \<Longrightarrow> push c (xs @ ys) = push c xs @ ys"
  by (cases xs) auto






lemma str_split_char:
  "str_split (c # cs) [d] = (if c = d then [] # str_split cs [d] else push c (str_split cs [d]))"
  by (simp add: str_split.simps startsWith_def)

lemma str_split_Nil: "str_split [] sep = [[]]"
  by (simp add: str_split.simps)

lemma str_split_char_append:
  "str_split (a @ d # b) [d] = str_split a [d] @ str_split b [d]"
  by (induction a) (auto simp: str_split_char str_split_Nil push_append str_split_nonempty)

lemma str_split_trailing: "str_split (l @ [d]) [d] = str_split l [d] @ [[]]"
  using str_split_char_append[of l d "[]"] by (simp add: str_split_Nil)

subsection \<open>Duplicate tokens\<close>

lemma process_equations_fail:
  "l \<in> set ls \<Longrightarrow> isl (process_equation l) \<Longrightarrow> isl (process_equations ls)"
  by (induction ls) (auto split: sum.splits)

lemma parse_one_segment:
  "str_split source ''---'' = [body] \<Longrightarrow>
     parse H source =
       (case process_equations (body_lines body) of
          Inl e \<Rightarrow> Inl e
        | Inr processed \<Rightarrow> Dsl H processed None)"
  by (simp add: parse_def parse_split_def)

lemma parse_two_segments:
  "str_split source ''---'' = [block, body] \<Longrightarrow>
     parse H source =
       (case parse_fields block of
          Inl e \<Rightarrow> Inl e
        | Inr fs \<Rightarrow>
            (case process_equations (body_lines body) of
               Inl e \<Rightarrow> Inl e
             | Inr processed \<Rightarrow> Dsl H processed (Some fs)))"
  by (simp add: parse_def parse_split_def split: sum.splits)

lemma parse_fail_line:
  assumes "str_split source ''---'' = [body] \<or> str_split source ''---'' = [block, body]"
    and "l \<in> set (body_lines body)" and "isl (process_equation l)"
  shows "isl (parse H source)"
proof -
  from process_equations_fail[OF assms(2,3)] obtain e where "process_equations (body_lines body) = Inl e"
    by (cases "process_equations (body_lines body)") auto
  with assms(1) show ?thesis
    by (auto simp: parse_one_segment parse_two_segments split: sum.splits)
qed

lemma line_with_duplicates_fails:
  assumes "str_split l ''|'' = first # segs"
    and "2 \<le> length (filter is_style_token segs) \<or> 2 \<le> length (filter is_color_token segs)"
  shows "isl (process_equation l)"
proof (cases "process_segments [(''equation'', first)] segs")
  case (Inl e)
  with assms(1) show ?thesis by (simp add: process_equation_def split: option.splits)
next
  case (Inr eq1)
  from at_most_one_token[OF Inr] assms(2) show ?thesis by auto
qed

text \<open>
  Claim C6. On an equation line at most one style token and at most one colour token are
  accepted. When the loop over the modifiers has accepted a style token and meets another,
  it fails with the duplicate-style error, and likewise for colours (named or hex) with
  the duplicate-colour error; a line that was accepted holds at most one token of each
  kind, so nothing was overwritten; a source with a body line that has two style tokens
  or two colour tokens is rejected by \<open>parse\<close>; and the two sources of the
  specification fail with the duplicate-style and the duplicate-colour error.
\<close>

theorem duplicate_tokens_rejected:
  "(process_segments eqa pre = Inr eqb \<and> (\<exists>t \<in> set pre. is_style_token t) \<and> is_style_token s \<longrightarrow>
      process_segments eqa (pre @ s # post)
        = Inl (DuplicateStyle (shown (get eqb ''style'')) (toUpperCase s)))
   \<and> (process_segments eqa pre = Inr eqb \<and> (\<exists>t \<in> set pre. is_color_token t) \<and> is_color_token s \<longrightarrow>
      process_segments eqa (pre @ s # post)
        = Inl (DuplicateColor (shown (get eqb ''color'')) (toUpperCase s)))
   \<and> (process_segments [(''equation'', first)] segs = Inr equation \<longrightarrow>
        length (filter is_style_token segs) \<le> 1 \<and> length (filter is_color_token segs) \<le> 1)
   \<and> ((str_split source ''---'' = [body] \<or> str_split source ''---'' = [block, body])
        \<and> l \<in> set (body_lines body) \<and> str_split l ''|'' = first # segs
        \<and> (2 \<le> length (filter is_style_token segs) \<or> 2 \<le> length (filter is_color_token segs))
      \<longrightarrow> isl (parse H source))
   \<and> parse H ''x=1|SOLID|SOLID'' = Inl (DuplicateStyle ''SOLID'' ''SOLID'')
   \<and> parse H ''x=1|#ff00ff|RED'' = Inl (DuplicateColor ''#ff00ff'' ''RED'')"
proof -
  have a: "parse H ''x=1|SOLID|SOLID'' = Inl (DuplicateStyle ''SOLID'' ''SOLID'')" by code_simp
  have b: "parse H ''x=1|#ff00ff|RED'' = Inl (DuplicateColor ''#ff00ff'' ''RED'')" by code_simp
  show ?thesis
    using duplicate_style_step[of eqa pre eqb s post] duplicate_color_step[of eqa pre eqb s post]
      at_most_one_token[of first segs equation]
      parse_fail_line[of source body block l H] line_with_duplicates_fails[of l first segs] a b
    by blast
qed

theorem duplicate_tokens_rejected_witness:
  "process_segments [(''equation'', ''x=1'')] [''dashed'', ''x>0'', ''#0aF'']
      = Inr [(''equation'', ''x=1''), (''style'', ''DASHED''), (''restriction'', ''{x>0}''),
             (''color'', ''#0aF'')]
   \<and> (\<exists>t \<in> set [''dashed'', ''x>0'', ''#0aF'']. is_style_token t) \<and> is_style_token ''Solid''
   \<and> process_segments [(''equation'', ''x=1'')] ([''dashed'', ''x>0'', ''#0aF''] @ ''Solid'' # [''y>0''])
        = Inl (DuplicateStyle ''DASHED'' ''SOLID'')
   \<and> (\<exists>t \<in> set [''dashed'', ''x>0'', ''#0aF'']. is_color_token t) \<and> is_color_token ''blue''
   \<and> process_segments [(''equation'', ''x=1'')] ([''dashed'', ''x>0'', ''#0aF''] @ ''blue'' # [''y>0''])
        = Inl (DuplicateColor ''#0aF'' ''BLUE'')
   \<and> length (filter is_style_token [''dashed'', ''x>0'', ''#0aF'']) \<le> 1
   \<and> length (filter is_color_token [''dashed'', ''x>0'', ''#0aF'']) \<le> 1
   \<and> str_split ''width=5---y=x|red|RED'' ''---'' = [''width=5'', ''y=x|red|RED'']
   \<and> ''y=x|red|RED'' \<in> set (body_lines ''y=x|red|RED'')
   \<and> str_split ''y=x|red|RED'' ''|'' = ''y=x'' # [''red'', ''RED'']
   \<and> 2 \<le> length (filter is_color_token [''red'', ''RED''])
   \<and> isl (parse id ''width=5---y=x|red|RED'')"
proof -
  let ?pre = "[''dashed'', ''x>0'', ''#0aF'']"
  let ?eqb = "[(''equation'', ''x=1''), (''style'', ''DASHED''), (''restriction'', ''{x>0}''),
             (''color'', ''#0aF'')]"
  have h1: "process_segments [(''equation'', ''x=1'')] ?pre = Inr ?eqb" by code_simp
  have h2: "\<exists>t \<in> set ?pre. is_style_token t" by code_simp
  have h3: "is_style_token ''Solid''" by code_simp
  have h4: "\<exists>t \<in> set ?pre. is_color_token t" by code_simp
  have h5: "is_color_token ''blue''" by code_simp
  have h6: "str_split ''width=5---y=x|red|RED'' ''---'' = [''width=5'', ''y=x|red|RED'']" by code_simp
  have h7: "''y=x|red|RED'' \<in> set (body_lines ''y=x|red|RED'')" by code_simp
  have h8: "str_split ''y=x|red|RED'' ''|'' = ''y=x'' # [''red'', ''RED'']" by code_simp
  have h9: "2 \<le> length (filter is_color_token [''red'', ''RED''])" by code_simp
  have e1: "shown (get ?eqb ''style'') = ''DASHED''" "toUpperCase ''Solid'' = ''SOLID''"
     "shown (get ?eqb ''color'') = ''#0aF''" "toUpperCase ''blue'' = ''BLUE''" by code_simp+
  note t = duplicate_tokens_rejected[where eqa = "[(''equation'', ''x=1'')]" and pre = ?pre and eqb = ?eqb
      and post = "[''y>0'']" and first = "''x=1''" and segs = ?pre and equation = ?eqb]
  note u = duplicate_tokens_rejected[where source = "''width=5---y=x|red|RED''" and body = "''y=x|red|RED''"
      and block = "''width=5''" and l = "''y=x|red|RED''" and first = "''y=x''"
      and segs = "[''red'', ''RED'']" and H = id]
  have c1: "process_segments [(''equation'', ''x=1'')] (?pre @ ''Solid'' # [''y>0''])
        = Inl (DuplicateStyle ''DASHED'' ''SOLID'')"
    using t[where s = "''Solid''"] h1 h2 h3 unfolding e1 by blast
  have c2: "process_segments [(''equation'', ''x=1'')] (?pre @ ''blue'' # [''y>0''])
        = Inl (DuplicateColor ''#0aF'' ''BLUE'')"
    using t[where s = "''blue''"] h1 h4 h5 unfolding e1 by blast
  have c3: "length (filter is_style_token ?pre) \<le> 1 \<and> length (filter is_color_token ?pre) \<le> 1"
    using t[where s = "''blue''"] h1 by blast
  have c4: "isl (parse id ''width=5---y=x|red|RED'')"
    using u h6 h7 h8 h9 by blast
  from h1 h2 h3 h4 h5 h6 h7 h8 h9 c1 c2 c3 c4 show ?thesis by blast
qed

subsection \<open>Classification of the modifiers\<close>









lemma isHexColor_Nil: "\<not> isHexColor []"
  by (simp add: isHexColor_def startsWith_def)






subsection \<open>Empty modifier segments\<close>

lemma classify_empty: "classify [] = RestrictionFragment []"
  by code_simp

lemma process_segment_empty: "process_segment equation [] = Inr (add_restriction equation [])"
proof -
  have "assert_notbanned [] ''graph configuration'' = None" by code_simp
  then show ?thesis by (simp add: process_segment_classify classify_empty apply_token_def)
qed

lemma restriction_text_add:
  "restriction_text (add_restriction equation f) = restriction_text equation @ wrap f"
  by (simp add: add_restriction_def restriction_text_def get_put wrap_def)

lemma adjacent_bars: "str_split (a @ ''||'' @ b) ''|'' = str_split a ''|'' @ [] # str_split b ''|''"
proof -
  have "str_split (a @ CHR ''|'' # (CHR ''|'' # b)) [CHR ''|''] = str_split a [CHR ''|''] @ str_split (CHR ''|'' # b) [CHR ''|'']"
    by (rule str_split_char_append)
  then show ?thesis by (simp add: str_split_char)
qed

lemma trailing_bar:
  "process_equation (l @ ''|'') =
     (case process_equation l of Inl e \<Rightarrow> Inl e | Inr eqb \<Rightarrow> Inr (add_restriction eqb []))"
proof -
  obtain first segs where s: "str_split l ''|'' = first # segs"
    using str_split_nonempty[of l "''|''"] by (cases "str_split l ''|''") auto
  then have "str_split (l @ ''|'') ''|'' = first # (segs @ [[]])"
    using str_split_trailing[of l "CHR ''|''"] by simp
  with s show ?thesis
    by (simp add: process_equation_def process_segments_append process_segment_empty
        split: option.splits sum.splits)
qed

text \<open>
  Claim C9. An empty modifier segment, which two adjacent bars or a bar at the end of the
  line produce, is never a reason to reject the line: it is classified as a restriction
  fragment and appends \<open>{}\<close> to the restriction of its equation. A line with a bar
  added at its end is accepted exactly when the line is, with \<open>{}\<close> appended.
\<close>

theorem empty_modifier_is_restriction:
  "classify [] = RestrictionFragment []
   \<and> process_segment equation [] = Inr (add_restriction equation [])
   \<and> restriction_text (add_restriction equation []) = restriction_text equation @ ''{}''
   \<and> process_segments equation (pre @ [] # post) =
       (case process_segments equation pre of
          Inl e \<Rightarrow> Inl e
        | Inr eqb \<Rightarrow> process_segments (add_restriction eqb []) post)
   \<and> str_split (a @ ''||'' @ b) ''|'' = str_split a ''|'' @ [] # str_split b ''|''
   \<and> process_equation (l @ ''|'') =
       (case process_equation l of Inl e \<Rightarrow> Inl e | Inr eqb \<Rightarrow> Inr (add_restriction eqb []))
   \<and> map_sum id equations (parse H ''y=x||red|'')
       = Inr [[(''equation'', ''y=x''), (''restriction'', ''{}{}''), (''color'', ''RED'')]]"
proof -
  have "map_sum id equations (parse H ''y=x||red|'')
       = Inr [[(''equation'', ''y=x''), (''restriction'', ''{}{}''), (''color'', ''RED'')]]"
    by code_simp
  moreover have "process_segments equation (pre @ [] # post) =
       (case process_segments equation pre of
          Inl e \<Rightarrow> Inl e
        | Inr eqb \<Rightarrow> process_segments (add_restriction eqb []) post)"
    by (simp add: process_segments_append process_segment_empty split: sum.splits)
  moreover have "restriction_text (add_restriction equation []) = restriction_text equation @ ''{}''"
    by (simp add: restriction_text_add wrap_def)
  ultimately show ?thesis
    using classify_empty process_segment_empty[of equation] adjacent_bars[of a b] trailing_bar[of l]
    by blast
qed

theorem empty_modifier_is_restriction_witness:
  "process_equation (''y=x|x>0'' @ ''|'')
     = Inr [(''equation'', ''y=x''), (''restriction'', ''{x>0}{}'')]
   \<and> str_split (''y=x'' @ ''||'' @ ''red'') ''|'' = [''y=x'', [], ''red'']
   \<and> process_segment [(''equation'', ''y=x''), (''style'', ''OPEN'')] []
     = Inr [(''equation'', ''y=x''), (''style'', ''OPEN''), (''restriction'', ''{}'')]"
proof -
  note t = empty_modifier_is_restriction[where l = "''y=x|x>0''" and a = "''y=x''" and b = "''red''"
      and equation = "[(''equation'', ''y=x''), (''style'', ''OPEN'')]"]
  have "process_equation (''y=x|x>0'' @ ''|'') =
       (case process_equation ''y=x|x>0'' of Inl e \<Rightarrow> Inl e | Inr eqb \<Rightarrow> Inr (add_restriction eqb []))"
    using t by blast
  also have "\<dots> = Inr [(''equation'', ''y=x''), (''restriction'', ''{x>0}{}'')]" by code_simp
  finally have c1: "process_equation (''y=x|x>0'' @ ''|'')
     = Inr [(''equation'', ''y=x''), (''restriction'', ''{x>0}{}'')]" .
  have "str_split (''y=x'' @ ''||'' @ ''red'') ''|'' = str_split ''y=x'' ''|'' @ [] # str_split ''red'' ''|''"
    using t by blast
  also have "\<dots> = [''y=x'', [], ''red'']" by code_simp
  finally have c2: "str_split (''y=x'' @ ''||'' @ ''red'') ''|'' = [''y=x'', [], ''red'']" .
  have "process_segment [(''equation'', ''y=x''), (''style'', ''OPEN'')] []
     = Inr (add_restriction [(''equation'', ''y=x''), (''style'', ''OPEN'')] [])" using t by blast
  also have "\<dots> = Inr [(''equation'', ''y=x''), (''style'', ''OPEN''), (''restriction'', ''{}'')]"
    by code_simp
  finally have c3: "process_segment [(''equation'', ''y=x''), (''style'', ''OPEN'')] []
     = Inr [(''equation'', ''y=x''), (''style'', ''OPEN''), (''restriction'', ''{}'')]" .
  from c1 c2 c3 show ?thesis by blast
qed

subsection \<open>Keys of the settings block\<close>

lemma reduce_fields_append:
  "reduce_fields s (xs @ ys) =
     (case reduce_fields s xs of Inl e \<Rightarrow> Inl e | Inr s' \<Rightarrow> reduce_fields s' ys)"
  by (induction xs arbitrary: s) (auto split: sum.splits)

lemma field_keys: "hasOwnProperty FIELD_DEFAULTS key =
   (key \<in> {''width'', ''height'', ''left'', ''right'', ''bottom'', ''top''})"
  by (auto simp: hasOwnProperty_def get_def FIELD_DEFAULTS_def)

lemma field_names: "fst ` set FIELD_DEFAULTS = {''width'', ''height'', ''left'', ''right'', ''bottom'', ''top''}"
  by (auto simp: FIELD_DEFAULTS_def)

lemma upper_names:
  "toUpperCase ''width'' = ''WIDTH''" "toUpperCase ''height'' = ''HEIGHT''"
  "toUpperCase ''left'' = ''LEFT''" "toUpperCase ''right'' = ''RIGHT''"
  "toUpperCase ''bottom'' = ''BOTTOM''" "toUpperCase ''top'' = ''TOP''"
  by code_simp+

lemma miscased_key_unrecognised:
  assumes "name \<in> fst ` set FIELD_DEFAULTS" and "toUpperCase key = toUpperCase name" and "key \<noteq> name"
  shows "\<not> hasOwnProperty FIELD_DEFAULTS key"
proof
  assume "hasOwnProperty FIELD_DEFAULTS key"
  then have k: "key \<in> {''width'', ''height'', ''left'', ''right'', ''bottom'', ''top''}"
    by (simp add: field_keys)
  from assms(1) have n: "name \<in> {''width'', ''height'', ''left'', ''right'', ''bottom'', ''top''}"
    by (simp add: field_names)
  from k n assms(2,3) show False
    by (elim insertE emptyE; simp add: upper_names)
qed

lemma field_step_unrecognised:
  "\<not> hasOwnProperty FIELD_DEFAULTS key \<Longrightarrow> field_step settings (key, v) = Inl (UnrecognisedField key)"
  by (simp add: field_step_def)

lemma reduce_fields_fail_mem:
  assumes "kv \<in> set es" and "\<And>s. isl (field_step s kv)"
  shows "isl (reduce_fields s es)"
  using assms(1)
proof (induction es arbitrary: s)
  case Nil
  then show ?case by simp
next
  case (Cons a es)
  show ?case
  proof (cases "field_step s a")
    case (Inl e)
    then show ?thesis by simp
  next
    case (Inr s')
    with assms(2)[of s] have "kv \<noteq> a" by auto
    with Cons.prems have "kv \<in> set es" by simp
    from Cons.IH[OF this] Inr show ?thesis by simp
  qed
qed

text \<open>
  Claim C10. The keys of the settings block are compared with the recognised field names
  as they are written. A key that differs from a recognised name only in letter case is
  answered with the unrecognised-field error whenever the reducer reaches it, whatever it
  has collected so far and whatever the value is; \<open>parse\<close> then fails with this error
  when the entries before it were accepted, and fails in every case. The source
  \<open>Width=10---y=x\<close> fails so, while modifiers of an equation line are accepted in any
  letter case.
\<close>

theorem field_keys_case_sensitive:
  "(name \<in> fst ` set FIELD_DEFAULTS \<and> toUpperCase key = toUpperCase name \<and> key \<noteq> name \<longrightarrow>
      field_step settings (key, v) = Inl (UnrecognisedField key)
      \<and> (str_split source ''---'' = [block, body] \<and> settings_entries block = pre @ (key, v) # post
           \<and> reduce_fields [] pre = Inr settings
         \<longrightarrow> parse H source = Inl (UnrecognisedField key))
      \<and> (str_split source ''---'' = [block, body] \<and> (key, v) \<in> set (settings_entries block)
         \<longrightarrow> isl (parse H source)))
   \<and> parse H ''Width=10---y=x'' = Inl (UnrecognisedField ''Width'')
   \<and> map_sum id equations (parse H ''width=10---y=x|Solid|Red'')
       = Inr [[(''equation'', ''y=x''), (''style'', ''SOLID''), (''color'', ''RED'')]]"
proof -
  have ex: "parse H ''Width=10---y=x'' = Inl (UnrecognisedField ''Width'')"
    "map_sum id equations (parse H ''width=10---y=x|Solid|Red'')
       = Inr [[(''equation'', ''y=x''), (''style'', ''SOLID''), (''color'', ''RED'')]]"
    by code_simp+
  {
    assume a: "name \<in> fst ` set FIELD_DEFAULTS" "toUpperCase key = toUpperCase name" "key \<noteq> name"
    have st: "field_step s (key, v) = Inl (UnrecognisedField key)" for s
      using miscased_key_unrecognised[OF a] by (rule field_step_unrecognised)
    have p1: "parse H source = Inl (UnrecognisedField key)"
      if "str_split source ''---'' = [block, body]" "settings_entries block = pre @ (key, v) # post"
        "reduce_fields [] pre = Inr settings"
      using that st[of settings]
      by (simp add: parse_two_segments parse_fields_def reduce_fields_append)
    have p2: "isl (parse H source)"
      if "str_split source ''---'' = [block, body]" "(key, v) \<in> set (settings_entries block)"
    proof -
      have "isl (reduce_fields [] (settings_entries block))"
        by (rule reduce_fields_fail_mem[OF that(2)]) (simp add: st)
      with that(1) show ?thesis
        by (auto simp: parse_two_segments parse_fields_def split: sum.splits)
    qed
    note st[of settings] p1 p2
  }
  with ex show ?thesis by blast
qed

theorem field_keys_case_sensitive_witness:
  "''height'' \<in> fst ` set FIELD_DEFAULTS \<and> toUpperCase ''heiGht'' = toUpperCase ''height''
   \<and> ''heiGht'' \<noteq> ''height''
   \<and> str_split ''left=1; heiGht=20;top=x---y=x'' ''---'' = [''left=1; heiGht=20;top=x'', ''y=x'']
   \<and> settings_entries ''left=1; heiGht=20;top=x'' = [(''left'', ''1'')] @ (''heiGht'', ''20'') # [(''top'', ''x'')]
   \<and> reduce_fields [] [(''left'', ''1'')] = Inr [(''left'', 1)]
   \<and> field_step [(''left'', 1)] (''heiGht'', ''20'') = Inl (UnrecognisedField ''heiGht'')
   \<and> parse id ''left=1; heiGht=20;top=x---y=x'' = Inl (UnrecognisedField ''heiGht'')"
proof -
  have h: "''height'' \<in> fst ` set FIELD_DEFAULTS" "toUpperCase ''heiGht'' = toUpperCase ''height''"
    "''heiGht'' \<noteq> ''height''"
    "str_split ''left=1; heiGht=20;top=x---y=x'' ''---'' = [''left=1; heiGht=20;top=x'', ''y=x'']"
    "settings_entries ''left=1; heiGht=20;top=x'' = [(''left'', ''1'')] @ (''heiGht'', ''20'') # [(''top'', ''x'')]"
    "reduce_fields [] [(''left'', ''1'')] = Inr [(''left'', 1)]"
    by code_simp+
  note t = field_keys_case_sensitive[where name = "''height''" and key = "''heiGht''" and v = "''20''"
      and settings = "[(''left'', 1)]" and source = "''left=1; heiGht=20;top=x---y=x''"
      and block = "''left=1; heiGht=20;top=x''" and body = "''y=x''" and pre = "[(''left'', ''1'')]"
      and post = "[(''top'', ''x'')]" and H = id]
  from t h show ?thesis by blast
qed

subsection \<open>The segments of the source\<close>









subsection \<open>Values of the settings block\<close>





















section \<open>Properties of the renderer\<close>

subsection \<open>The cache and the switch\<close>

lemma render_hit_memory:
  "location (cache st) = Memory \<Longrightarrow> get (graph_cache w) (hash args) = Some v \<Longrightarrow>
     render e r args st el w = appendChild el (Img v) w"
  by (simp add: render_def truthy_object_def shown_def)

lemma render_hit_file:
  "location (cache st) = Filesystem \<Longrightarrow>
     get (files w) (cache_target_of e st (hash args)) = Some v \<Longrightarrow>
     render e r args st el w = appendChild el (Img (png_prefix @ v)) w"
  by (simp add: render_def truthy_object_def shown_def existsSync_file_def)

lemma render_miss:
  "\<not> cache_hit e args st w \<Longrightarrow>
     render e r args st el w =
       addEventListener (make_handler e r args st el) (appendChild el (Iframe args) w)"
  by (auto simp: render_def cache_hit_def)

lemma render_hit:
  "cache_hit e args st w \<Longrightarrow>
     \<exists>v. render e r args st el w = appendChild el (Img v) w"
  by (cases "location (cache st)") (auto simp: render_def cache_hit_def truthy_object_def)

lemma listeners_appendChild [simp]: "listeners (appendChild el n w) = listeners w"
  by (simp add: appendChild_def)

lemma handle_render_memory:
  "location (cache (h_settings h)) = Memory \<Longrightarrow> matches h m \<Longrightarrow> m_d m = ''render'' \<Longrightarrow>
     get (graph_cache (handle h m w)) (h_hash h) = Some (m_data m)"
  by (simp add: handle_def Let_def store_in_cache_def truthy_object_def get_put)

lemma handle_render_file:
  "location (cache (h_settings h)) = Filesystem \<Longrightarrow> matches h m \<Longrightarrow> m_d m = ''render'' \<Longrightarrow>
     h_cache_dir h \<in> set (dirs w) \<Longrightarrow> h_cache_target h \<notin> set (unwritable w) \<Longrightarrow>
     get (files (handle h m w)) (h_cache_target h) = Some (strip_png_prefix (m_data m))"
  by (simp add: handle_def Let_def store_in_cache_def truthy_object_def get_put existsSync_dir_def
      writeFile_def resolve_def appendChild_def removeEventListener_def empty_el_def)

text \<open>
  Claim C2 asks that the cache be consulted and written only when caching is enabled. The
  test in \<open>render\<close> and in the handler is \<open>if (settings.cache)\<close>, on the object that
  holds the switch, and the object is truthy whatever \<open>enabled\<close> is: a cached image is
  returned, and a rendered one stored, for every value of the switch. The theorem states
  what the code does for all settings; its witness is the case where caching is off.
\<close>

theorem cache_used_whatever_enabled:
  "(location (cache st) = Memory \<and> get (graph_cache w) (hash args) = Some v \<longrightarrow>
      render e r args st el w = appendChild el (Img v) w)
   \<and> (location (cache st) = Filesystem
        \<and> get (files w) (cache_target_of e st (hash args)) = Some v \<longrightarrow>
      render e r args st el w = appendChild el (Img (png_prefix @ v)) w)
   \<and> (location (cache (h_settings h)) = Memory \<and> matches h m \<and> m_d m = ''render'' \<longrightarrow>
      get (graph_cache (handle h m w)) (h_hash h) = Some (m_data m))
   \<and> (location (cache (h_settings h)) = Filesystem \<and> matches h m \<and> m_d m = ''render''
        \<and> h_cache_dir h \<in> set (dirs w) \<and> h_cache_target h \<notin> set (unwritable w) \<longrightarrow>
      get (files (handle h m w)) (h_cache_target h) = Some (strip_png_prefix (m_data m)))"
  using render_hit_memory[of st w args v e r el] render_hit_file[of st w e args v r el]
    handle_render_memory[of h m w] handle_render_file[of h m w]
  by blast

theorem cache_used_whatever_enabled_witness:
  "enabled (cache caching_off) = False
   \<and> location (cache caching_off) = Memory
   \<and> get (graph_cache warm_world) (hash example_graph) = Some example_image
   \<and> render example_env 1 example_graph caching_off ''el'' warm_world
        = appendChild ''el'' (Img example_image) warm_world
   \<and> \<not> renderer_invoked (render example_env 1 example_graph caching_off ''el'' warm_world) ''el''
   \<and> location (cache (h_settings (make_handler example_env 1 example_graph caching_off ''el''))) = Memory
   \<and> matches (make_handler example_env 1 example_graph caching_off ''el'') render_message
   \<and> m_d render_message = ''render''
   \<and> get (graph_cache (handle (make_handler example_env 1 example_graph caching_off ''el'')
              render_message
              (render example_env 1 example_graph caching_off ''el'' cold_world))) ''c0ffee''
        = Some example_image"
proof -
  let ?h = "make_handler example_env 1 example_graph caching_off ''el''"
  have h: "enabled (cache caching_off) = False" "location (cache caching_off) = Memory"
    "get (graph_cache warm_world) (hash example_graph) = Some example_image"
    "location (cache (h_settings ?h)) = Memory" "matches ?h render_message"
    "m_d render_message = ''render''"
    by code_simp+
  have k: "h_hash ?h = ''c0ffee''" "m_data render_message = example_image" by code_simp+
  have c1: "render example_env 1 example_graph caching_off ''el'' warm_world
        = appendChild ''el'' (Img example_image) warm_world"
    using cache_used_whatever_enabled[where st = caching_off and w = warm_world
        and args = example_graph and v = example_image and e = example_env and r = 1 and el = "''el''"]
      h by blast
  have c2: "\<not> renderer_invoked (render example_env 1 example_graph caching_off ''el'' warm_world) ''el''"
    unfolding c1 by code_simp
  have c3: "get (graph_cache (handle ?h render_message
              (render example_env 1 example_graph caching_off ''el'' cold_world))) ''c0ffee''
        = Some example_image"
    using cache_used_whatever_enabled[where h = ?h and m = render_message
        and w = "render example_env 1 example_graph caching_off ''el'' cold_world"] h
    unfolding k by blast
  from h c1 c2 c3 show ?thesis by blast
qed

subsection \<open>The listener of a request and the error signal\<close>

lemma listeners_handle:
  "listeners (handle h m w) =
     (if matches h m \<and> m_d m = ''render'' then remove1 h (listeners w) else listeners w)"
  by (simp add: handle_def Let_def store_in_cache_def writeFile_def Notice_def resolve_def
      appendChild_def removeEventListener_def empty_el_def renderError_def)

lemma handle_no_match: "\<not> matches h m \<Longrightarrow> handle h m w = w"
  by (simp add: handle_def)

lemma listeners_render_miss:
  "\<not> cache_hit e args st w \<Longrightarrow>
     listeners (render e r args st el w) = listeners w @ [make_handler e r args st el]"
  by (simp add: render_miss addEventListener_def)

lemma listeners_render_hit:
  "cache_hit e args st w \<Longrightarrow> listeners (render e r args st el w) = listeners w"
  using render_hit[of e args st w r el] by auto

lemma fold_handle_keeps:
  assumes "h \<in> set (listeners w)" and "\<not> (matches h m \<and> m_d m = ''render'')"
  shows "h \<in> set (listeners (fold (\<lambda>h' w'. if h' \<in> set (listeners w') then handle h' m w' else w') hs w))"
  using assms(1)
proof (induction hs arbitrary: w)
  case Nil
  then show ?case by simp
next
  case (Cons a hs)
  have "h \<in> set (listeners (if a \<in> set (listeners w) then handle a m w else w))"
    using Cons.prems assms(2) by (cases "a = h") (auto simp: listeners_handle)
  from Cons.IH[OF this] show ?case by simp
qed

lemma postMessage_keeps:
  "h \<in> set (listeners w) \<Longrightarrow> \<not> (matches h m \<and> m_d m = ''render'') \<Longrightarrow>
     h \<in> set (listeners (postMessage m w))"
  unfolding postMessage_def by (rule fold_handle_keeps)

lemma fold_handle_subset:
  "set (listeners (fold (\<lambda>h' w'. if h' \<in> set (listeners w') then handle h' m w' else w') hs w))
     \<subseteq> set (listeners w)"
proof (induction hs arbitrary: w)
  case Nil
  then show ?case by simp
next
  case (Cons a hs)
  have "set (listeners (if a \<in> set (listeners w) then handle a m w else w)) \<subseteq> set (listeners w)"
    using set_remove1_subset[of a "listeners w"] by (auto simp: listeners_handle)
  with Cons.IH show ?case by fastforce
qed

lemma fold_handle_removes:
  assumes "matches h m" and "m_d m = ''render''"
  shows "distinct (listeners w) \<Longrightarrow> h \<in> set hs \<Longrightarrow>
     h \<notin> set (listeners (fold (\<lambda>h' w'. if h' \<in> set (listeners w') then handle h' m w' else w') hs w))"
proof (induction hs arbitrary: w)
  case Nil
  then show ?case by simp
next
  case (Cons a hs)
  let ?w = "if a \<in> set (listeners w) then handle a m w else w"
  have d: "distinct (listeners ?w)" using Cons.prems(1) by (simp add: listeners_handle)
  show ?case
  proof (cases "a = h")
    case True
    have "h \<notin> set (listeners ?w)"
      using Cons.prems(1) assms True by (simp add: listeners_handle)
    with fold_handle_subset[of m hs ?w] show ?thesis by auto
  next
    case False
    with Cons.prems(2) have "h \<in> set hs" by simp
    from Cons.IH[OF d this] show ?thesis by simp
  qed
qed

lemma postMessage_removes:
  "distinct (listeners w) \<Longrightarrow> h \<in> set (listeners w) \<Longrightarrow> matches h m \<Longrightarrow> m_d m = ''render'' \<Longrightarrow>
     h \<notin> set (listeners (postMessage m w))"
  unfolding postMessage_def by (rule fold_handle_removes)

text \<open>
  The handler calls \<open>removeEventListener\<close> inside the branch for the outcome
  \<open>render\<close> only: after a matching message with the outcome \<open>error\<close> the listener
  of the request is still registered.
\<close>

theorem error_keeps_listener:
  "matches (make_handler example_env 1 example_graph (DEFAULT_SETTINGS ''0.3.0'') ''el'') error_message
   \<and> listeners (render example_env 1 example_graph (DEFAULT_SETTINGS ''0.3.0'') ''el'' cold_world)
       = [make_handler example_env 1 example_graph (DEFAULT_SETTINGS ''0.3.0'') ''el'']
   \<and> listeners (postMessage error_message
         (render example_env 1 example_graph (DEFAULT_SETTINGS ''0.3.0'') ''el'' cold_world))
       = [make_handler example_env 1 example_graph (DEFAULT_SETTINGS ''0.3.0'') ''el'']"
  by code_simp

text \<open>
  Claim C3 asks that a request register exactly one listener and that the listener be
  removed at the first message that matches the request, whatever its outcome. What the
  code does: a request that misses the cache registers exactly one listener, its own, and
  a request that hits the cache registers none; the handler removes itself at a message
  that matches its request in origin, type tag and fingerprint and carries the outcome
  \<open>render\<close>, and at no other message. A posted message of this kind removes the
  listener from the window; any other posted message leaves it registered, and the witness
  shows this for a matching message with the outcome \<open>error\<close>, where the claim wants
  the listener removed.
\<close>

theorem listener_lifecycle:
  "(\<not> cache_hit e args st w \<longrightarrow>
      listeners (render e r args st el w) = listeners w @ [make_handler e r args st el])
   \<and> (cache_hit e args st w \<longrightarrow> listeners (render e r args st el w) = listeners w)
   \<and> listeners (handle h m w) =
       (if matches h m \<and> m_d m = ''render'' then remove1 h (listeners w) else listeners w)
   \<and> (distinct (listeners w) \<and> h \<in> set (listeners w) \<and> matches h m \<and> m_d m = ''render'' \<longrightarrow>
        h \<notin> set (listeners (postMessage m w)))
   \<and> (h \<in> set (listeners w) \<and> \<not> (matches h m \<and> m_d m = ''render'') \<longrightarrow>
        h \<in> set (listeners (postMessage m w)))"
  using listeners_render_miss[of e args st w r el] listeners_render_hit[of e args st w r el]
    listeners_handle[of h m w] postMessage_removes[of w h m] postMessage_keeps[of h w m]
  by blast


theorem listener_lifecycle_witness:
  "\<not> cache_hit example_env example_graph (DEFAULT_SETTINGS ''0.3.0'') cold_world
   \<and> listeners (render example_env 1 example_graph (DEFAULT_SETTINGS ''0.3.0'') ''el'' cold_world)
       = listeners cold_world @ [make_handler example_env 1 example_graph (DEFAULT_SETTINGS ''0.3.0'') ''el'']
   \<and> cache_hit example_env example_graph (DEFAULT_SETTINGS ''0.3.0'') warm_world
   \<and> listeners (render example_env 1 example_graph (DEFAULT_SETTINGS ''0.3.0'') ''el'' warm_world)
       = listeners warm_world
   \<and> distinct (listeners (render example_env 1 example_graph (DEFAULT_SETTINGS ''0.3.0'') ''el'' cold_world))
   \<and> make_handler example_env 1 example_graph (DEFAULT_SETTINGS ''0.3.0'') ''el''
       \<in> set (listeners (render example_env 1 example_graph (DEFAULT_SETTINGS ''0.3.0'') ''el'' cold_world))
   \<and> matches (make_handler example_env 1 example_graph (DEFAULT_SETTINGS ''0.3.0'') ''el'') render_message
   \<and> m_d render_message = ''render''
   \<and> make_handler example_env 1 example_graph (DEFAULT_SETTINGS ''0.3.0'') ''el''
       \<notin> set (listeners (postMessage render_message
            (render example_env 1 example_graph (DEFAULT_SETTINGS ''0.3.0'') ''el'' cold_world)))
   \<and> \<not> (matches (make_handler example_env 1 example_graph (DEFAULT_SETTINGS ''0.3.0'') ''el'') error_message
          \<and> m_d error_message = ''render'')
   \<and> make_handler example_env 1 example_graph (DEFAULT_SETTINGS ''0.3.0'') ''el''
       \<in> set (listeners (postMessage error_message
            (render example_env 1 example_graph (DEFAULT_SETTINGS ''0.3.0'') ''el'' cold_world)))"
proof -
  let ?st = "DEFAULT_SETTINGS ''0.3.0''"
  let ?h = "make_handler example_env 1 example_graph ?st ''el''"
  let ?w = "render example_env 1 example_graph ?st ''el'' cold_world"
  have h: "\<not> cache_hit example_env example_graph ?st cold_world"
    "cache_hit example_env example_graph ?st warm_world"
    "distinct (listeners ?w)" "?h \<in> set (listeners ?w)" "matches ?h render_message"
    "m_d render_message = ''render''"
    "\<not> (matches ?h error_message \<and> m_d error_message = ''render'')"
    by code_simp+
  note a = listener_lifecycle[where e = example_env and args = example_graph and st = ?st
      and r = 1 and el = "''el''"]
  note b = listener_lifecycle[where h = ?h and w = ?w]
  have c1: "listeners ?w = listeners cold_world @ [?h]"
    using a[where w = cold_world] h(1) by blast
  have c2: "listeners (render example_env 1 example_graph ?st ''el'' warm_world) = listeners warm_world"
    using a[where w = warm_world] h(2) by blast
  have c3: "?h \<notin> set (listeners (postMessage render_message ?w))"
    using b[where m = render_message] h(3,4,5,6) by blast
  have c4: "?h \<in> set (listeners (postMessage error_message ?w))"
    using b[where m = error_message] h(4,7) by blast
  from h c1 c2 c3 c4 show ?thesis by blast
qed

lemma handle_error:
  assumes "matches h m" and "m_d m = ''error''"
  shows "children (handle h m w) (h_el h) = [ErrorBox (m_data m)]"
    and "resolved (handle h m w) = resolved w"
    and "listeners (handle h m w) = listeners w"
  using assms
  by (simp_all add: handle_def Let_def renderError_def empty_el_def children_def get_put)

lemma handle_not_render:
  assumes "m_d m \<noteq> ''render''"
  shows "graph_cache (handle h m w) = graph_cache w \<and> files (handle h m w) = files w
         \<and> resolved (handle h m w) = resolved w"
  using assms by (simp add: handle_def Let_def renderError_def empty_el_def)

lemma fold_handle_not_render:
  assumes "m_d m \<noteq> ''render''"
  shows "graph_cache (fold (\<lambda>h' w'. if h' \<in> set (listeners w') then handle h' m w' else w') hs w) = graph_cache w
       \<and> files (fold (\<lambda>h' w'. if h' \<in> set (listeners w') then handle h' m w' else w') hs w) = files w
       \<and> resolved (fold (\<lambda>h' w'. if h' \<in> set (listeners w') then handle h' m w' else w') hs w) = resolved w"
proof (induction hs arbitrary: w)
  case Nil
  then show ?case by simp
next
  case (Cons a hs)
  show ?case using Cons.IH[of "if a \<in> set (listeners w) then handle a m w else w"]
      handle_not_render[OF assms, of a w] by simp
qed

lemma postMessage_not_render:
  "m_d m \<noteq> ''render'' \<Longrightarrow>
     graph_cache (postMessage m w) = graph_cache w \<and> files (postMessage m w) = files w
     \<and> resolved (postMessage m w) = resolved w"
  unfolding postMessage_def by (rule fold_handle_not_render)

text \<open>
  Claim C4 says that at an error signal \<open>render\<close> resolves with an error that carries the
  message of the renderer. The promise of \<open>render\<close> is resolved in the branch for the
  outcome \<open>render\<close> only, and with no value: after the error signal the message is shown
  in the element of the request and the promise is still pending.
\<close>

theorem error_signal_counterexample:
  "m_d error_message = ''error''
   \<and> children (postMessage error_message
         (render example_env 1 example_graph (DEFAULT_SETTINGS ''0.3.0'') ''el'' cold_world)) ''el''
       = [ErrorBox ''Too many variables'']
   \<and> resolved (postMessage error_message
         (render example_env 1 example_graph (DEFAULT_SETTINGS ''0.3.0'') ''el'' cold_world)) = []"
  by code_simp

text \<open>
  Claim C4, amended. At an error signal that matches a request, the handler replaces the
  content of the element of the request by the error box with the message of the renderer:
  the error is reported through the element, the promise of \<open>render\<close> carrying no value.
  A posted message with the outcome \<open>error\<close> writes nothing to the memory cache and
  nothing to the files, whatever listeners the window has.
\<close>

theorem error_signal:
  "(matches h m \<and> m_d m = ''error'' \<longrightarrow>
      children (handle h m w) (h_el h) = [ErrorBox (m_data m)])
   \<and> (m_d m = ''error'' \<longrightarrow>
        graph_cache (postMessage m w) = graph_cache w
        \<and> files (postMessage m w) = files w)"
proof -
  have "m_d m \<noteq> ''render''" if "m_d m = ''error''" using that by simp
  then show ?thesis
    using handle_error[of h m w] postMessage_not_render[of m w] by blast
qed

theorem error_signal_witness:
  "matches (make_handler example_env 1 example_graph caching_off_files ''el'') error_message
   \<and> m_d error_message = ''error''
   \<and> children (handle (make_handler example_env 1 example_graph caching_off_files ''el'') error_message
        (render example_env 1 example_graph caching_off_files ''el'' cold_world)) ''el''
       = [ErrorBox ''Too many variables'']
   \<and> graph_cache (postMessage error_message
        (render example_env 1 example_graph caching_off_files ''el'' cold_world)) = []
   \<and> files (postMessage error_message
        (render example_env 1 example_graph caching_off_files ''el'' cold_world)) = []"
proof -
  let ?h = "make_handler example_env 1 example_graph caching_off_files ''el''"
  let ?w = "render example_env 1 example_graph caching_off_files ''el'' cold_world"
  have h: "matches ?h error_message" "m_d error_message = ''error''" by code_simp+
  have k: "h_el ?h = ''el''" "m_data error_message = ''Too many variables''"
    "graph_cache ?w = []" "files ?w = []" "resolved ?w = []" by code_simp+
  note t = error_signal[where h = ?h and m = error_message and w = ?w]
  have c1: "children (handle ?h error_message ?w) ''el'' = [ErrorBox ''Too many variables'']"
    using t h unfolding k by blast
  have c2: "graph_cache (postMessage error_message ?w) = []
     \<and> files (postMessage error_message ?w) = []"
    using t h(2) unfolding k by simp
  from h c1 c2 show ?thesis by blast
qed

section \<open>Properties of the fingerprint\<close>

subsection \<open>The escaped text of a string\<close>













subsection \<open>The text of a number\<close>












subsection \<open>Objects and arrays\<close>










subsection \<open>The order of the properties of an equation\<close>














subsection \<open>The parsed document\<close>











subsection \<open>Equal content and equal fingerprints\<close>




end
